theory Spec2Isabelle
  imports Main "HOL-Library.Sublist" "HOL-Library.Char_ord" "HOL-Library.List_Lexorder"
begin

section \<open>The XML-RPC client of pmatic (pmatic/xml\_api.py)\<close>

text \<open>
  The development embeds the class \<open>XMLAPI\<close> of \<open>pmatic/xml_api.py\<close>: the address
  normalisation of \<open>_set_address\<close>, the name translation of \<open>_to_internal_name\<close>, the
  lazy initialisation (\<open>_initialize\<close>, \<open>_connect\<close>, \<open>_init_methods\<close>), the dynamic
  dispatch (\<open>__getattr__\<close>, \<open>_call\<close>, \<open>_do_call\<close>, \<open>_get_method\<close>) and the listing of
  \<open>print_methods\<close>. Python strings are modelled as \<open>string\<close> (lists of 8-bit characters),
  exceptions as values of the type \<open>exn\<close>, the instance attributes as a record that
  every operation takes and returns.
\<close>

subsection \<open>Python values and exceptions\<close>

text \<open>
  The values that cross the boundary of the client: what the caller passes as address or
  as call arguments, and what the XML-RPC transport returns.
\<close>

datatype pyval =
    PyNone
  | PyBool bool
  | PyInt int
  | PyStr string
  | PyList "pyval list"

text \<open>
  The exceptions that occur in the module. \<open>PMException\<close> and \<open>PMConnectionError\<close> are the
  client's own classes (imported from \<open>pmatic.exceptions\<close>); \<open>ProtocolError\<close> and \<open>Fault\<close>
  are the two classes imported from the XML-RPC library, each carrying its rendering by
  \<open>str\<close>; \<open>AttributeError\<close> and \<open>TypeError\<close> are raised by the interpreter;
  \<open>OtherError cls msg\<close> stands for an exception of any other class that the transport
  raises (for instance \<open>socket.error\<close>).
\<close>

datatype exn =
    PMException string
  | PMConnectionError string
  | ProtocolError string
  | Fault string
  | AttributeError string
  | TypeError string
  | OtherError string string

subsection \<open>String operations of Python\<close>

text \<open>
  \<open>s.replace(old, new)\<close>: one scan from left to right that replaces the non-overlapping
  occurrences of \<open>old\<close>; the text already produced is never scanned again. With an empty
  \<open>old\<close>, Python puts \<open>new\<close> before every character and at the end.
\<close>

function replace_nonempty :: "string \<Rightarrow> string \<Rightarrow> string \<Rightarrow> string" where
  "replace_nonempty old new [] = []"
| "replace_nonempty old new (c # cs) =
     (if old \<noteq> [] \<and> prefix old (c # cs)
      then new @ replace_nonempty old new (drop (length old) (c # cs))
      else c # replace_nonempty old new cs)"
  by pat_completeness auto
termination
  by (relation "measure (\<lambda>(old, new, s). length s)") auto

definition replace :: "string \<Rightarrow> string \<Rightarrow> string \<Rightarrow> string" where
  "replace old new s =
     (if old = [] then new @ concat (map (\<lambda>c. c # new) s)
      else replace_nonempty old new s)"

text \<open>
  The character classes \<open>[A-Z]\<close>, \<open>[a-z]\<close> and \<open>[0-9]\<close>, and \<open>s.lower()\<close> on the letters of
  ASCII (a character is a byte here).
\<close>

definition is_upper :: "char \<Rightarrow> bool" where
  "is_upper c = (CHR ''A'' \<le> c \<and> c \<le> CHR ''Z'')"

definition is_lower :: "char \<Rightarrow> bool" where
  "is_lower c = (CHR ''a'' \<le> c \<and> c \<le> CHR ''z'')"

definition is_digit :: "char \<Rightarrow> bool" where
  "is_digit c = (CHR ''0'' \<le> c \<and> c \<le> CHR ''9'')"

definition lower_char :: "char \<Rightarrow> char" where
  "lower_char c = (if is_upper c then char_of (of_char c + (32::nat)) else c)"

definition lower :: "string \<Rightarrow> string" where
  "lower s = map lower_char s"

subsection \<open>The helper \<open>utils.decamel\<close>\<close>

text \<open>
  Modelled from the spec: \<open>utils.decamel\<close> of \<open>pmatic/utils.py\<close>, which is not among the
  sources. The specification asks for the standard conversion from camel case to lower
  case with underscores: an underscore is put before every capital that starts a
  capitalised word (a capital followed by a run of lower-case letters), then between a
  lower-case letter or digit and a capital that follows it, and the whole string is
  lower-cased. The two passes are the substitutions of the patterns
  \<open>(.)([A-Z][a-z]+)\<close> and \<open>([a-z0-9])([A-Z])\<close> by \<open>\1_\2\<close>, scanning from the left with
  non-overlapping matches; \<open>.\<close> matches every character but the line feed.
\<close>

function decamel_words :: "string \<Rightarrow> string" where
  "decamel_words [] = []"
| "decamel_words [c] = [c]"
| "decamel_words (c # u # rest) =
     (if c \<noteq> CHR 0x0A \<and> is_upper u \<and> takeWhile is_lower rest \<noteq> []
      then c # CHR ''_'' # u # takeWhile is_lower rest
             @ decamel_words (dropWhile is_lower rest)
      else c # decamel_words (u # rest))"
  by pat_completeness auto
termination
  by (relation "measure length") (auto simp: le_imp_less_Suc length_dropWhile_le less_Suc_eq_le intro: le_SucI)

fun decamel_caps :: "string \<Rightarrow> string" where
  "decamel_caps [] = []"
| "decamel_caps [c] = [c]"
| "decamel_caps (c # u # rest) =
     (if (is_lower c \<or> is_digit c) \<and> is_upper u
      then c # CHR ''_'' # u # decamel_caps rest
      else c # decamel_caps (u # rest))"

definition decamel :: "string \<Rightarrow> string" where
  "decamel name = lower (decamel_caps (decamel_words name))"

subsection \<open>Address normalisation and name translation\<close>

text \<open>
  \<open>_set_address\<close>: an address that is not a string is refused; otherwise the port is
  appended, after the scheme \<open>http://\<close> has been put in front of an address without one.
  The function returns the value assigned to \<open>self._address\<close>.
\<close>

definition set_address :: "pyval \<Rightarrow> exn + string" where
  "set_address address =
     (case address of
        PyStr a \<Rightarrow>
          (if \<not> prefix ''https://'' a \<and> \<not> prefix ''http://'' a
           then Inr (''http://'' @ a @ '':2001'')
           else Inr (a @ '':2001''))
      | _ \<Rightarrow> Inl (PMException ''Please specify the address of the CCU.''))"

text \<open>\<open>_to_internal_name\<close>, with the helper \<open>decamel\<close> as a parameter and with the modelled one.\<close>

definition to_internal_name_with :: "(string \<Rightarrow> string) \<Rightarrow> string \<Rightarrow> string" where
  "to_internal_name_with dc method_name_api =
     replace ''__'' ''_''
       (replace ''re_ga'' ''rega''
          (replace ''bid_co_s'' ''bidcos''
             (dc (replace ''.'' ''_'' method_name_api))))"

definition to_internal_name :: "string \<Rightarrow> string" where
  "to_internal_name = to_internal_name_with decamel"

subsection \<open>The client object and its collaborators\<close>

text \<open>
  A method descriptor is the dictionary that \<open>_init_methods\<close> stores for a method, with
  its four keys as fields.
\<close>

record descriptor =
  NAME :: string
  INFO :: string
  ARGUMENTS :: "string list"
  INT_ARGUMENTS :: "string list"

text \<open>
  What the client does to its collaborators, in order: the messages given to
  \<open>self.logger.debug\<close> and the requests made to the XML-RPC library.
\<close>

datatype event =
    Log_Initializing
  | Log_Initialized
  | Log_Call string string "pyval list"
  | Log_Response pyval
  | Connect string
  | ListMethods
  | Invoke string "pyval list"

text \<open>
  The XML-RPC library and the remote endpoint, as the client sees them during one
  operation: \<open>server_proxy addr\<close> is the exception that \<open>ServerProxy(addr)\<close> raises, if
  any; \<open>list_methods\<close> is the outcome of \<open>proxy.system.listMethods()\<close>; \<open>invoke name args\<close>
  is the outcome of calling the remote method \<open>name\<close>.
\<close>

record transport =
  server_proxy :: "string \<Rightarrow> exn option"
  list_methods :: "exn + pyval"
  invoke :: "string \<Rightarrow> pyval list \<Rightarrow> exn + pyval"

text \<open>
  The instance attributes of \<open>XMLAPI\<close>. The dictionary \<open>_methods\<close> is an association list
  in insertion order with distinct keys; \<open>proxy\<close> is the address the proxy object was
  built for, once \<open>_connect\<close> has run; \<open>events\<close> collects the interactions with the
  collaborators. The lock \<open>_api_lock\<close> has no effect on a single caller and is left out.
\<close>

record xmlapi =
  methods :: "(string \<times> descriptor) list"
  fail_exc :: "exn option"
  initialized :: bool
  address :: string
  proxy :: "string option"
  events :: "event list"

definition emit :: "event \<Rightarrow> xmlapi \<Rightarrow> xmlapi" where
  "emit ev s = s\<lparr>events := events s @ [ev]\<rparr>"

text \<open>\<open>d.setdefault(k, v)\<close> on the association list: an existing key keeps its value.\<close>

definition setdefault :: "'k \<Rightarrow> 'v \<Rightarrow> ('k \<times> 'v) list \<Rightarrow> ('k \<times> 'v) list" where
  "setdefault k v d = (if k \<in> fst ` set d then d else d @ [(k, v)])"

definition dquote :: string where
  "dquote = [CHR 0x22]"

text \<open>\<open>XMLAPI.__init__\<close>: the attributes are initialised, then the address is set.\<close>

definition XMLAPI_new :: "pyval \<Rightarrow> exn + xmlapi" where
  "XMLAPI_new addr =
     (case set_address addr of
        Inl e \<Rightarrow> Inl e
      | Inr a \<Rightarrow> Inr \<lparr>methods = [], fail_exc = None, initialized = False,
                     address = a, proxy = None, events = []\<rparr>)"

text \<open>\<open>_connect\<close>: builds the proxy object for the stored address.\<close>

definition connect :: "transport \<Rightarrow> xmlapi \<Rightarrow> (exn + unit) \<times> xmlapi" where
  "connect t s =
     (let s1 = emit (Connect (address s)) s
      in case server_proxy t (address s) of
           Some e \<Rightarrow> (Inl e, s1)
         | None \<Rightarrow> (Inr (), s1\<lparr>proxy := Some (address s)\<rparr>))"

definition new_descriptor :: "string \<Rightarrow> descriptor" where
  "new_descriptor method = \<lparr>NAME = method, INFO = [], ARGUMENTS = [], INT_ARGUMENTS = []\<rparr>"

text \<open>
  The loop of \<open>_init_methods\<close>. An element that is not a string has no method \<open>replace\<close>,
  so that \<open>_to_internal_name\<close> raises \<open>AttributeError\<close> and the loop stops there.
\<close>

fun init_methods_loop :: "pyval list \<Rightarrow> xmlapi \<Rightarrow> (exn + unit) \<times> xmlapi" where
  "init_methods_loop [] s = (Inr (), s)"
| "init_methods_loop (m # ms) s =
     (case m of
        PyStr method \<Rightarrow>
          init_methods_loop ms
            (s\<lparr>methods := setdefault (to_internal_name method) (new_descriptor method)
                             (methods s)\<rparr>)
      | _ \<Rightarrow> (Inl (AttributeError ''object has no attribute replace''), s))"

text \<open>
  \<open>_init_methods\<close>: the dictionary is cleared, the listing is requested, and the loop
  runs over the answer. Iterating over a string yields its characters; \<open>None\<close>, a
  truth value or an integer cannot be iterated (\<open>TypeError\<close>). The method is called by
  \<open>_initialize_api\<close> after \<open>_connect\<close>, so \<open>self.proxy\<close> is bound.
\<close>

definition init_methods :: "transport \<Rightarrow> xmlapi \<Rightarrow> (exn + unit) \<times> xmlapi" where
  "init_methods t s =
     (let s1 = emit ListMethods (s\<lparr>methods := []\<rparr>)
      in case list_methods t of
           Inl e \<Rightarrow> (Inl e, s1)
         | Inr v \<Rightarrow>
             (case v of
                PyList ms \<Rightarrow> init_methods_loop ms s1
              | PyStr cs \<Rightarrow> init_methods_loop (map (\<lambda>c. PyStr [c]) cs) s1
              | _ \<Rightarrow> (Inl (TypeError ''object is not iterable''), s1)))"

definition initialize_api :: "transport \<Rightarrow> xmlapi \<Rightarrow> (exn + unit) \<times> xmlapi" where
  "initialize_api t s =
     (case connect t s of
        (Inl e, s1) \<Rightarrow> (Inl e, s1)
      | (Inr _, s1) \<Rightarrow> init_methods t s1)"

text \<open>
  \<open>_initialize\<close>: nothing is done on an initialised client; otherwise the recorded
  failure is cleared and \<open>_initialize_api\<close> runs; an exception is recorded and raised
  again.
\<close>

definition initialize :: "transport \<Rightarrow> xmlapi \<Rightarrow> (exn + unit) \<times> xmlapi" where
  "initialize t s =
     (if initialized s then (Inr (), s)
      else
        (case initialize_api t (emit Log_Initializing (s\<lparr>fail_exc := None\<rparr>)) of
           (Inr _, s1) \<Rightarrow> (Inr (), emit Log_Initialized (s1\<lparr>initialized := True\<rparr>))
         | (Inl e, s1) \<Rightarrow> (Inl e, s1\<lparr>initialized := False, fail_exc := Some e\<rparr>)))"

text \<open>\<open>_get_method\<close>: the lookup in the dictionary, \<open>KeyError\<close> turned into \<open>PMException\<close>.\<close>

definition get_method :: "xmlapi \<Rightarrow> string \<Rightarrow> exn + descriptor" where
  "get_method s method_name_int =
     (case map_of (methods s) method_name_int of
        Some method \<Rightarrow> Inr method
      | None \<Rightarrow>
          Inl (PMException (''Method '' @ dquote @ method_name_int @ dquote
                            @ '' is not a valid method.'')))"

text \<open>
  \<open>_do_call\<close>: only the two exception classes \<open>ProtocolError\<close> and \<open>Fault\<close> are caught;
  an exception of another class leaves the method as it is.
\<close>

definition do_call :: "transport \<Rightarrow> xmlapi \<Rightarrow> string \<Rightarrow> pyval list \<Rightarrow> (exn + pyval) \<times> xmlapi" where
  "do_call t s method_name_int args =
     (case get_method s method_name_int of
        Inl e \<Rightarrow> (Inl e, s)
      | Inr method \<Rightarrow>
          (let s1 = emit (Invoke (NAME method) args)
                      (emit (Log_Call (address s) (NAME method) args) s)
           in case invoke t (NAME method) args of
                Inl (ProtocolError perr) \<Rightarrow>
                  (Inl (PMConnectionError (''Unable to open '' @ dquote @ address s @ dquote
                                           @ '': '' @ perr)), s1)
              | Inl (Fault fault) \<Rightarrow>
                  (Inl (PMException (''Server error calling '' @ dquote @ method_name_int
                                     @ dquote @ '': '' @ fault)), s1)
              | Inl e \<Rightarrow> (Inl e, s1)
              | Inr result \<Rightarrow> (Inr result, emit (Log_Response result) s1)))"

text \<open>
  \<open>__getattr__\<close> initialises the client and returns a function bound to the requested
  name; the function is represented by that name. \<open>_call\<close> runs \<open>_do_call\<close> under the
  lock. \<open>api_call\<close> is the expression \<open>API.name(*args)\<close>: attribute access, then call.
\<close>

definition getattr :: "transport \<Rightarrow> xmlapi \<Rightarrow> string \<Rightarrow> (exn + string) \<times> xmlapi" where
  "getattr t s method_name_int =
     (case initialize t s of
        (Inl e, s1) \<Rightarrow> (Inl e, s1)
      | (Inr _, s1) \<Rightarrow> (Inr method_name_int, s1))"

definition call :: "transport \<Rightarrow> xmlapi \<Rightarrow> string \<Rightarrow> pyval list \<Rightarrow> (exn + pyval) \<times> xmlapi" where
  "call t s method_name_int args = do_call t s method_name_int args"

definition api_call :: "transport \<Rightarrow> xmlapi \<Rightarrow> string \<Rightarrow> pyval list \<Rightarrow> (exn + pyval) \<times> xmlapi" where
  "api_call t s name args =
     (case getattr t s name of
        (Inl e, s1) \<Rightarrow> (Inl e, s1)
      | (Inr f, s1) \<Rightarrow> call t s1 f args)"

text \<open>
  \<open>print_methods\<close> (here \<open>xmlapi_print_methods\<close>): after the initialisation, a header and one line for every entry of
  the dictionary, sorted; the result is the list of the strings written to
  \<open>sys.stdout\<close>. The format \<open>%-60s %s\n\<close> pads its first argument with blanks on the
  right to 60 characters.
\<close>

definition ljust :: "nat \<Rightarrow> string \<Rightarrow> string" where
  "ljust n s = s @ replicate (n - length s) CHR '' ''"

definition line_format :: "string \<Rightarrow> string \<Rightarrow> string" where
  "line_format a b = ljust 60 a @ '' '' @ b @ [CHR 0x0A]"

fun join :: "string \<Rightarrow> string list \<Rightarrow> string" where
  "join sep [] = []"
| "join sep [x] = x"
| "join sep (x # y # ys) = x @ sep @ join sep (y # ys)"

definition method_line :: "string \<times> descriptor \<Rightarrow> string" where
  "method_line item =
     line_format (''API.'' @ fst item @ ''('' @ join '', '' (INT_ARGUMENTS (snd item)) @ '')'')
                 (INFO (snd item))"

definition xmlapi_print_methods :: "transport \<Rightarrow> xmlapi \<Rightarrow> (exn + string list) \<times> xmlapi" where
  "xmlapi_print_methods t s =
     (case initialize t s of
        (Inl e, s1) \<Rightarrow> (Inl e, s1)
      | (Inr _, s1) \<Rightarrow>
          (Inr (line_format ''Method'' ''Description''
                # map method_line (sort_key fst (methods s1))), s1))"

text \<open>
  The states a client can be in: the one the constructor returns, and every state that
  a dynamic call or a listing leaves behind, whatever the transport does.
\<close>

inductive reachable :: "xmlapi \<Rightarrow> bool" where
  reachable_new: "XMLAPI_new addr = Inr s \<Longrightarrow> reachable s"
| reachable_call: "reachable s \<Longrightarrow> reachable (snd (api_call t s name args))"
| reachable_print: "reachable s \<Longrightarrow> reachable (snd (xmlapi_print_methods t s))"

text \<open>The client's own exception classes.\<close>

fun is_pm_error :: "exn \<Rightarrow> bool" where
  "is_pm_error (PMException _) = True"
| "is_pm_error (PMConnectionError _) = True"
| "is_pm_error _ = False"

text \<open>The class \<open>PMConnectionError\<close> alone.\<close>

fun is_connection_error :: "exn \<Rightarrow> bool" where
  "is_connection_error (PMConnectionError _) = True"
| "is_connection_error _ = False"

subsection \<open>A client and transports to run the model on\<close>

text \<open>
  The client that \<open>XMLAPI("192.168.1.26")\<close> builds, and a transport whose proxy object
  can always be built, with a given outcome of the listing and a given outcome of every
  remote call.
\<close>

definition example_client :: xmlapi where
  "example_client =
     \<lparr>methods = [], fail_exc = None, initialized = False,
      address = ''http://192.168.1.26:2001'', proxy = None, events = []\<rparr>"

definition example_transport :: "exn + pyval \<Rightarrow> exn + pyval \<Rightarrow> transport" where
  "example_transport listing answer =
     \<lparr>server_proxy = (\<lambda>_. None), list_methods = listing, invoke = (\<lambda>_ _. answer)\<rparr>"

definition example_listing :: "exn + pyval" where
  "example_listing = Inr (PyList [PyStr ''CCU.getSerial'', PyStr ''fooBar''])"

definition refused :: exn where
  "refused = OtherError ''socket.error'' ''Connection refused''"

text \<open>The example client after a successful initialisation with the example listing.\<close>

definition ready_client :: xmlapi where
  "ready_client = snd (initialize (example_transport example_listing (Inr PyNone)) example_client)"

section \<open>Address normalisation\<close>

text \<open>
  C1. For every string address, \<open>_set_address\<close> stores the address with \<open>:2001\<close> appended
  when it starts with \<open>http://\<close> or \<open>https://\<close>, and \<open>http://\<close> followed by the address
  and \<open>:2001\<close> otherwise. In particular \<open>192.168.1.26\<close> becomes
  \<open>http://192.168.1.26:2001\<close> and \<open>https://ccu.local\<close> becomes \<open>https://ccu.local:2001\<close>.
\<close>

theorem set_address_normalizes:
  "(prefix ''http://'' a \<or> prefix ''https://'' a \<longrightarrow>
      set_address (PyStr a) = Inr (a @ '':2001'')) \<and>
   (\<not> (prefix ''http://'' a \<or> prefix ''https://'' a) \<longrightarrow>
      set_address (PyStr a) = Inr (''http://'' @ a @ '':2001'')) \<and>
   set_address (PyStr ''192.168.1.26'') = Inr ''http://192.168.1.26:2001'' \<and>
   set_address (PyStr ''https://ccu.local'') = Inr ''https://ccu.local:2001''"
  by (simp add: set_address_def)

theorem set_address_normalizes_witness:
  "prefix ''http://'' ''http://192.168.1.26'' \<and>
   set_address (PyStr ''http://192.168.1.26'') = Inr ''http://192.168.1.26:2001'' \<and>
   \<not> (prefix ''http://'' ''homematic-ccu2'' \<or> prefix ''https://'' ''homematic-ccu2'') \<and>
   set_address (PyStr ''homematic-ccu2'') = Inr ''http://homematic-ccu2:2001''"
  using set_address_normalizes [of "''http://192.168.1.26''"]
        set_address_normalizes [of "''homematic-ccu2''"]
  by simp

section \<open>Name translation\<close>

text \<open>
  C2. The name translator maps \<open>Interface.activateLinkParamset\<close> to
  \<open>interface_activate_link_paramset\<close> and \<open>CCU.getSerial\<close> to \<open>ccu_get_serial\<close>; the
  translation replaces every dot by an underscore, decamelizes, applies the corrections
  \<open>bid_co_s\<close> to \<open>bidcos\<close> and \<open>re_ga\<close> to \<open>rega\<close>, and replaces doubled underscores.
\<close>

theorem to_internal_name_examples:
  "to_internal_name ''Interface.activateLinkParamset'' = ''interface_activate_link_paramset'' \<and>
   to_internal_name ''CCU.getSerial'' = ''ccu_get_serial''"
  by code_simp

text \<open>The two corrections at work, on method names of the CCU.\<close>

lemma to_internal_name_corrections:
  "to_internal_name ''BidCoS_RF.createKeyFile'' = ''bidcos_rf_create_key_file'' \<and>
   to_internal_name ''ReGa.runScript'' = ''rega_run_script''"
  by code_simp

subsection \<open>The last replacement\<close>

lemma collapse_Nil: "replace ''__'' ''_'' [] = []"
  by (simp add: replace_def)

lemma collapse_pair:
  "replace ''__'' ''_'' (CHR ''_'' # CHR ''_'' # s) = CHR ''_'' # replace ''__'' ''_'' s"
  by (simp add: replace_def)

lemma collapse_other:
  "\<not> prefix ''__'' (c # cs) \<Longrightarrow> replace ''__'' ''_'' (c # cs) = c # replace ''__'' ''_'' cs"
  by (cases cs) (auto simp: replace_def)

lemma collapse_head: "\<exists>r. replace ''__'' ''_'' (c # cs) = c # r"
  by (cases "prefix ''__'' (c # cs)") (auto simp: replace_def)

lemma collapse_prefix_underscore:
  "prefix ''_'' (replace ''__'' ''_'' s) \<longleftrightarrow> prefix ''_'' s"
proof (cases s)
  case Nil
  then show ?thesis by (simp add: collapse_Nil)
next
  case (Cons c cs)
  obtain r where "replace ''__'' ''_'' (c # cs) = c # r"
    using collapse_head by blast
  with Cons show ?thesis by simp
qed

text \<open>
  The scan replaces pairs of underscores from the left and does not look at its own
  output: two underscores survive exactly where three stood.
\<close>

lemma collapse_double_iff:
  "sublist ''__'' (replace ''__'' ''_'' s) \<longleftrightarrow> sublist ''___'' s"
proof (induction s rule: length_induct)
  case (1 s)
  show ?case
  proof (cases s)
    case Nil
    then show ?thesis by (simp add: collapse_Nil)
  next
    case (Cons c cs)
    show ?thesis
    proof (cases "prefix ''__'' (c # cs)")
      case True
      then obtain t where cs: "c = CHR ''_''" "cs = CHR ''_'' # t"
        by (cases cs) auto
      have ih: "sublist ''__'' (replace ''__'' ''_'' t) \<longleftrightarrow> sublist ''___'' t"
        using 1 Cons cs by simp
      have "sublist ''__'' (replace ''__'' ''_'' s) \<longleftrightarrow>
            prefix ''_'' (replace ''__'' ''_'' t) \<or> sublist ''__'' (replace ''__'' ''_'' t)"
        using Cons cs by (simp add: collapse_pair sublist_Cons_right)
      also have "\<dots> \<longleftrightarrow> prefix ''_'' t \<or> sublist ''___'' t"
        using ih collapse_prefix_underscore by simp
      also have "\<dots> \<longleftrightarrow> sublist ''___'' s"
        using Cons cs by (cases t) (auto simp: sublist_Cons_right)
      finally show ?thesis .
    next
      case False
      have ih: "sublist ''__'' (replace ''__'' ''_'' cs) \<longleftrightarrow> sublist ''___'' cs"
        using 1 Cons by simp
      have "sublist ''__'' (replace ''__'' ''_'' s) \<longleftrightarrow>
            (c = CHR ''_'' \<and> prefix ''_'' (replace ''__'' ''_'' cs))
            \<or> sublist ''__'' (replace ''__'' ''_'' cs)"
        using Cons False by (auto simp: collapse_other sublist_Cons_right)
      also have "\<dots> \<longleftrightarrow> sublist ''___'' cs"
        using False ih collapse_prefix_underscore [of cs] by (cases cs) auto
      also have "\<dots> \<longleftrightarrow> sublist ''___'' s"
        using Cons False by (cases cs) (auto simp: sublist_Cons_right)
      finally show ?thesis .
    qed
  qed
qed

text \<open>
  C3, as the specification states it: no translated name contains two consecutive
  underscores. The name \<open>a...b\<close> refutes it: its three dots become three underscores,
  of which the single scan removes one.
\<close>

theorem to_internal_name_keeps_double_underscore:
  "to_internal_name ''a...b'' = ''a__b'' \<and> sublist ''__'' (to_internal_name ''a...b'')"
  by code_simp

text \<open>
  C3, amended: whatever the helper \<open>decamel\<close> computes, the translated name contains two
  consecutive underscores exactly when the string that reaches the last replacement
  contains three; a name whose intermediate form has no run of three underscores is
  translated to an identifier without doubled underscore.
\<close>

theorem to_internal_name_double_underscore:
  "sublist ''__'' (to_internal_name_with dc n) \<longleftrightarrow>
   sublist ''___''
     (replace ''re_ga'' ''rega'' (replace ''bid_co_s'' ''bidcos'' (dc (replace ''.'' ''_'' n))))"
  by (simp add: to_internal_name_with_def collapse_double_iff)

theorem to_internal_name_double_underscore_witness:
  "\<not> sublist ''___''
       (replace ''re_ga'' ''rega''
          (replace ''bid_co_s'' ''bidcos'' (decamel (replace ''.'' ''_'' ''Foo.Bar'')))) \<and>
   \<not> sublist ''__'' (to_internal_name ''Foo.Bar'')"
proof -
  have h: "\<not> sublist ''___''
       (replace ''re_ga'' ''rega''
          (replace ''bid_co_s'' ''bidcos'' (decamel (replace ''.'' ''_'' ''Foo.Bar''))))"
    by code_simp
  show ?thesis
    using h to_internal_name_double_underscore [of decamel "''Foo.Bar''"]
    by (simp add: to_internal_name_def)
qed

section \<open>The method catalog\<close>

subsection \<open>The dictionary operations\<close>

lemma map_of_setdefault:
  "map_of (setdefault k v d) k' =
     (if k' = k \<and> map_of d k = None then Some v else map_of d k')"
proof (cases "k \<in> fst ` set d")
  case True
  then have "map_of d k \<noteq> None"
    by (simp add: map_of_eq_None_iff)
  with True show ?thesis
    by (simp add: setdefault_def)
next
  case False
  then have "map_of d k = None"
    by (simp add: map_of_eq_None_iff)
  with False show ?thesis
    by (simp add: setdefault_def map_add_def split: option.splits)
qed

lemma distinct_setdefault:
  "distinct (map fst d) \<Longrightarrow> distinct (map fst (setdefault k v d))"
  by (auto simp: setdefault_def)

lemma find_first:
  "\<forall>m\<in>set pre. \<not> P m \<Longrightarrow> P m1 \<Longrightarrow> find P (pre @ m1 # rest) = Some m1"
  by (induction pre) auto

subsection \<open>The loop over the listing\<close>

lemma loop_strings_ok: "fst (init_methods_loop (map PyStr names) s) = Inr ()"
  by (induction names arbitrary: s) auto

lemma loop_strings_lookup:
  "map_of (methods (snd (init_methods_loop (map PyStr names) s))) k =
     (case map_of (methods s) k of
        Some d \<Rightarrow> Some d
      | None \<Rightarrow> map_option new_descriptor (find (\<lambda>m. to_internal_name m = k) names))"
  by (induction names arbitrary: s) (auto simp: map_of_setdefault split: option.splits)

lemma loop_distinct:
  "distinct (map fst (methods s)) \<Longrightarrow>
   distinct (map fst (methods (snd (init_methods_loop ms s))))"
  by (induction ms arbitrary: s) (auto simp: distinct_setdefault split: pyval.splits)

lemma loop_other_fields:
  "fail_exc (snd (init_methods_loop ms s)) = fail_exc s \<and>
   initialized (snd (init_methods_loop ms s)) = initialized s \<and>
   address (snd (init_methods_loop ms s)) = address s \<and>
   proxy (snd (init_methods_loop ms s)) = proxy s \<and>
   events (snd (init_methods_loop ms s)) = events s"
  by (induction ms arbitrary: s) (auto split: pyval.splits)

text \<open>
  With a listing of strings, \<open>_init_methods\<close> succeeds, and the catalog maps a local
  identifier to the descriptor of the first listed name that is translated to it.
\<close>

lemma init_methods_strings:
  assumes "list_methods t = Inr (PyList (map PyStr names))"
  shows "fst (init_methods t s) = Inr ()"
    and "map_of (methods (snd (init_methods t s))) k =
           map_option new_descriptor (find (\<lambda>m. to_internal_name m = k) names)"
    and "distinct (map fst (methods (snd (init_methods t s))))"
  using assms
  by (simp_all add: init_methods_def emit_def loop_strings_ok loop_strings_lookup loop_distinct)

text \<open>
  C4. The remote names are processed in the order of the listing. If two distinct
  remote names \<open>m1\<close> and \<open>m2\<close> are translated to the same local identifier, \<open>m1\<close> being
  the first name of the listing with that identifier, then \<open>_init_methods\<close> raises
  nothing, the identifier is bound to the descriptor of \<open>m1\<close>, it occurs once, and no
  entry of the catalog carries \<open>m2\<close>.
\<close>

theorem catalog_first_name_wins:
  assumes listing: "list_methods t = Inr (PyList (map PyStr names))"
    and names: "names = pre @ m1 # mid @ m2 # post"
    and neq: "m1 \<noteq> m2"
    and same: "to_internal_name m1 = to_internal_name m2"
    and first: "\<forall>m\<in>set pre. to_internal_name m \<noteq> to_internal_name m1"
  shows "fst (init_methods t s) = Inr () \<and>
         map_of (methods (snd (init_methods t s))) (to_internal_name m2)
           = Some (new_descriptor m1) \<and>
         distinct (map fst (methods (snd (init_methods t s)))) \<and>
         (\<forall>(k, d)\<in>set (methods (snd (init_methods t s))). NAME d \<noteq> m2)"
proof -
  let ?c = "methods (snd (init_methods t s))"
  have f: "find (\<lambda>m. to_internal_name m = to_internal_name m2) names = Some m1"
    unfolding names using first same by (intro find_first) auto
  have look: "map_of ?c (to_internal_name m2) = Some (new_descriptor m1)"
    using init_methods_strings(2) [OF listing, of s "to_internal_name m2"] f by simp
  have dist: "distinct (map fst ?c)"
    by (rule init_methods_strings(3) [OF listing])
  have "NAME d \<noteq> m2" if kd: "(k, d) \<in> set ?c" for k d
  proof
    assume eq: "NAME d = m2"
    from kd dist have at_k: "map_of ?c k = Some d"
      by simp
    then obtain m where m: "find (\<lambda>m. to_internal_name m = k) names = Some m"
        "d = new_descriptor m"
      using init_methods_strings(2) [OF listing, of s k] by auto
    from m(1) have "to_internal_name m = k"
      by (auto simp: find_Some_iff)
    moreover from m(2) eq have "m = m2"
      by (simp add: new_descriptor_def)
    ultimately have "k = to_internal_name m2"
      by simp
    with at_k look have "d = new_descriptor m1"
      by simp
    with eq neq show False
      by (simp add: new_descriptor_def)
  qed
  then show ?thesis
    using look dist init_methods_strings(1) [OF listing] by auto
qed

theorem catalog_first_name_wins_witness:
  "''fooBar'' \<noteq> ''foo.bar'' \<and>
   to_internal_name ''fooBar'' = to_internal_name ''foo.bar'' \<and>
   fst (init_methods
          (example_transport
             (Inr (PyList (map PyStr [''fooBar'', ''CCU.getSerial'', ''foo.bar''])))
             (Inr PyNone))
          example_client) = Inr () \<and>
   map_of (methods (snd (init_methods
          (example_transport
             (Inr (PyList (map PyStr [''fooBar'', ''CCU.getSerial'', ''foo.bar''])))
             (Inr PyNone))
          example_client))) (to_internal_name ''foo.bar'') = Some (new_descriptor ''fooBar'')"
proof -
  have same: "to_internal_name ''fooBar'' = to_internal_name ''foo.bar''"
    by code_simp
  have listing: "list_methods (example_transport
             (Inr (PyList (map PyStr [''fooBar'', ''CCU.getSerial'', ''foo.bar''])))
             (Inr PyNone))
    = Inr (PyList (map PyStr [''fooBar'', ''CCU.getSerial'', ''foo.bar'']))"
    by (simp add: example_transport_def)
  have names: "[''fooBar'', ''CCU.getSerial'', ''foo.bar'']
    = [] @ ''fooBar'' # [''CCU.getSerial''] @ ''foo.bar'' # []"
    by simp
  have neq: "''fooBar'' \<noteq> ''foo.bar''"
    by simp
  have first: "\<forall>m\<in>set []. to_internal_name m \<noteq> to_internal_name ''fooBar''"
    by simp
  show ?thesis
    using catalog_first_name_wins [OF listing names neq same first, of example_client]
      same neq by blast
qed

section \<open>Initialisation\<close>

text \<open>The parts of \<open>_initialize\<close>, one lemma for each way through it.\<close>

lemma init_methods_fields:
  "fail_exc (snd (init_methods t s)) = fail_exc s \<and>
   initialized (snd (init_methods t s)) = initialized s \<and>
   address (snd (init_methods t s)) = address s \<and>
   proxy (snd (init_methods t s)) = proxy s \<and>
   events (snd (init_methods t s)) = events s @ [ListMethods]"
  by (auto simp: init_methods_def emit_def Let_def loop_other_fields
        split: sum.splits pyval.splits)

lemma initialize_ready: "initialized s \<Longrightarrow> initialize t s = (Inr (), s)"
  by (simp add: initialize_def)

lemma initialize_connect_fails:
  assumes "\<not> initialized s" and "server_proxy t (address s) = Some e"
  shows "initialize t s =
           (Inl e, s\<lparr>fail_exc := Some e, initialized := False,
                     events := events s @ [Log_Initializing, Connect (address s)]\<rparr>)"
  using assms by (simp add: initialize_def initialize_api_def connect_def emit_def)

lemma initialize_connected:
  assumes "\<not> initialized s" and "server_proxy t (address s) = None"
  shows "initialize t s =
           (case init_methods t
                   (s\<lparr>fail_exc := None,
                      events := events s @ [Log_Initializing, Connect (address s)],
                      proxy := Some (address s)\<rparr>) of
              (Inr u, s2) \<Rightarrow> (Inr (), emit Log_Initialized (s2\<lparr>initialized := True\<rparr>))
            | (Inl e, s2) \<Rightarrow> (Inl e, s2\<lparr>initialized := False, fail_exc := Some e\<rparr>))"
  using assms by (simp add: initialize_def initialize_api_def connect_def emit_def)

lemma initialize_events:
  assumes "\<not> initialized s"
  shows "\<exists>rest. events (snd (initialize t s))
           = events s @ Log_Initializing # Connect (address s) # rest"
proof (cases "server_proxy t (address s)")
  case (Some e)
  then show ?thesis using assms by (simp add: initialize_connect_fails)
next
  case None
  let ?s1 = "s\<lparr>fail_exc := None,
              events := events s @ [Log_Initializing, Connect (address s)],
              proxy := Some (address s)\<rparr>"
  obtain r s2 where r: "init_methods t ?s1 = (r, s2)" by (cases "init_methods t ?s1")
  have "events s2 = events ?s1 @ [ListMethods]"
    using init_methods_fields [of t ?s1] r by simp
  then show ?thesis
    using assms None r by (cases r) (simp_all add: initialize_connected emit_def)
qed

lemma initialize_failed:
  assumes "fst (initialize t s) = Inl e"
  shows "\<not> initialized (snd (initialize t s)) \<and> fail_exc (snd (initialize t s)) = Some e"
proof -
  have ni: "\<not> initialized s" using assms by (auto simp: initialize_def)
  show ?thesis
  proof (cases "server_proxy t (address s)")
    case (Some e')
    then show ?thesis using assms ni by (simp add: initialize_connect_fails)
  next
    case None
    let ?s1 = "s\<lparr>fail_exc := None,
              events := events s @ [Log_Initializing, Connect (address s)],
              proxy := Some (address s)\<rparr>"
    obtain r s2 where r: "init_methods t ?s1 = (r, s2)" by (cases "init_methods t ?s1")
    show ?thesis
      using assms ni None r by (cases r) (simp_all add: initialize_connected emit_def)
  qed
qed

lemma initialize_succeeded:
  assumes "fst (initialize t s) = Inr u" and "\<not> initialized s"
  shows "initialized (snd (initialize t s)) \<and> fail_exc (snd (initialize t s)) = None"
proof (cases "server_proxy t (address s)")
  case (Some e')
  then show ?thesis using assms by (simp add: initialize_connect_fails)
next
  case None
  let ?s1 = "s\<lparr>fail_exc := None,
              events := events s @ [Log_Initializing, Connect (address s)],
              proxy := Some (address s)\<rparr>"
  obtain r s2 where r: "init_methods t ?s1 = (r, s2)" by (cases "init_methods t ?s1")
  have "fail_exc s2 = None" using init_methods_fields [of t ?s1] r by simp
  then show ?thesis
    using assms None r by (cases r) (simp_all add: initialize_connected emit_def)
qed

lemma initialize_listing_fails:
  assumes "\<not> initialized s" and "server_proxy t (address s) = None"
    and "list_methods t = Inl e"
  shows "initialize t s =
           (Inl e, s\<lparr>methods := [], fail_exc := Some e, initialized := False,
                     proxy := Some (address s),
                     events := events s @ [Log_Initializing, Connect (address s), ListMethods]\<rparr>)"
  using assms by (simp add: initialize_connected init_methods_def emit_def)

lemma initialize_listing_strings:
  assumes "\<not> initialized s" and "server_proxy t (address s) = None"
    and "list_methods t = Inr (PyList (map PyStr names))"
  shows "fst (initialize t s) = Inr ()"
    and "map_of (methods (snd (initialize t s))) k =
           map_option new_descriptor (find (\<lambda>m. to_internal_name m = k) names)"
proof -
  let ?s1 = "s\<lparr>fail_exc := None,
              events := events s @ [Log_Initializing, Connect (address s)],
              proxy := Some (address s)\<rparr>"
  obtain r s2 where r: "init_methods t ?s1 = (r, s2)" by (cases "init_methods t ?s1")
  have ok: "r = Inr ()" using init_methods_strings(1) [OF assms(3), of ?s1] r by simp
  have look: "map_of (methods s2) k =
           map_option new_descriptor (find (\<lambda>m. to_internal_name m = k) names)"
    using init_methods_strings(2) [OF assms(3), of ?s1 k] r by simp
  show "fst (initialize t s) = Inr ()"
    using assms(1,2) r ok by (simp add: initialize_connected)
  show "map_of (methods (snd (initialize t s))) k =
           map_option new_descriptor (find (\<lambda>m. to_internal_name m = k) names)"
    using assms(1,2) r ok look by (simp add: initialize_connected emit_def)
qed

lemma initialize_address: "address (snd (initialize t s)) = address s"
proof (cases "initialized s")
  case True
  then show ?thesis by (simp add: initialize_ready)
next
  case False
  show ?thesis
  proof (cases "server_proxy t (address s)")
    case (Some e)
    then show ?thesis using False by (simp add: initialize_connect_fails)
  next
    case None
    let ?s1 = "s\<lparr>fail_exc := None,
              events := events s @ [Log_Initializing, Connect (address s)],
              proxy := Some (address s)\<rparr>"
    obtain r s2 where r: "init_methods t ?s1 = (r, s2)" by (cases "init_methods t ?s1")
    have "address s2 = address s" using init_methods_fields [of t ?s1] r by simp
    then show ?thesis
      using False None r by (cases r) (simp_all add: initialize_connected emit_def)
  qed
qed

text \<open>
  C7. On a client that is not initialised: when the construction of the proxy or the
  listing fails with \<open>e\<close>, \<open>_initialize\<close> raises \<open>e\<close>; whenever \<open>_initialize\<close> raises
  \<open>e\<close>, the client is left not initialised with \<open>fail_reason = e\<close>. The next attempt
  does not stop at the recorded failure: it logs, connects again, and ends either
  initialised with no failure recorded or with the new failure in place of the old one.
\<close>

theorem initialize_failure_recorded:
  assumes "\<not> initialized s"
  shows "(server_proxy t (address s) = Some e \<or>
          (server_proxy t (address s) = None \<and> list_methods t = Inl e)
            \<longrightarrow> fst (initialize t s) = Inl e) \<and>
         (fst (initialize t s) = Inl e \<longrightarrow>
            \<not> initialized (snd (initialize t s)) \<and>
            fail_exc (snd (initialize t s)) = Some e \<and>
            (\<forall>t'. \<exists>rest. events (snd (initialize t' (snd (initialize t s))))
                     = events (snd (initialize t s))
                       @ Log_Initializing # Connect (address s) # rest) \<and>
            (\<forall>t' u. fst (initialize t' (snd (initialize t s))) = Inr u \<longrightarrow>
                     initialized (snd (initialize t' (snd (initialize t s)))) \<and>
                     fail_exc (snd (initialize t' (snd (initialize t s)))) = None) \<and>
            (\<forall>t' e'. fst (initialize t' (snd (initialize t s))) = Inl e' \<longrightarrow>
                     \<not> initialized (snd (initialize t' (snd (initialize t s)))) \<and>
                     fail_exc (snd (initialize t' (snd (initialize t s)))) = Some e'))"
proof (intro conjI impI)
  assume "server_proxy t (address s) = Some e \<or>
          (server_proxy t (address s) = None \<and> list_methods t = Inl e)"
  then show "fst (initialize t s) = Inl e"
    using assms by (auto simp: initialize_connect_fails initialize_listing_fails)
next
  assume f: "fst (initialize t s) = Inl e"
  let ?s' = "snd (initialize t s)"
  show ni: "\<not> initialized ?s'" and "fail_exc ?s' = Some e"
    using initialize_failed [OF f] by simp_all
  show "\<forall>t'. \<exists>rest. events (snd (initialize t' ?s'))
           = events ?s' @ Log_Initializing # Connect (address s) # rest"
    using initialize_events [OF ni] by (simp add: initialize_address)
  show "\<forall>t' u. fst (initialize t' ?s') = Inr u \<longrightarrow>
          initialized (snd (initialize t' ?s')) \<and> fail_exc (snd (initialize t' ?s')) = None"
    using initialize_succeeded ni by blast
  show "\<forall>t' e'. fst (initialize t' ?s') = Inl e' \<longrightarrow>
          \<not> initialized (snd (initialize t' ?s')) \<and> fail_exc (snd (initialize t' ?s')) = Some e'"
    using initialize_failed by blast
qed

theorem initialize_failure_recorded_witness:
  "fst (initialize (example_transport (Inl refused) (Inr PyNone)) example_client) = Inl refused \<and>
   \<not> initialized (snd (initialize (example_transport (Inl refused) (Inr PyNone)) example_client)) \<and>
   fail_exc (snd (initialize (example_transport (Inl refused) (Inr PyNone)) example_client))
     = Some refused \<and>
   fst (initialize (example_transport example_listing (Inr PyNone))
          (snd (initialize (example_transport (Inl refused) (Inr PyNone)) example_client)))
     = Inr () \<and>
   initialized (snd (initialize (example_transport example_listing (Inr PyNone))
          (snd (initialize (example_transport (Inl refused) (Inr PyNone)) example_client)))) \<and>
   fail_exc (snd (initialize (example_transport example_listing (Inr PyNone))
          (snd (initialize (example_transport (Inl refused) (Inr PyNone)) example_client))))
     = None"
proof -
  let ?t = "example_transport (Inl refused) (Inr PyNone)"
  have ni: "\<not> initialized example_client"
    by (simp add: example_client_def)
  have step: "server_proxy ?t (address example_client) = Some refused \<or>
          (server_proxy ?t (address example_client) = None \<and> list_methods ?t = Inl refused)"
    by (simp add: example_transport_def)
  have again: "fst (initialize (example_transport example_listing (Inr PyNone))
          (snd (initialize ?t example_client))) = Inr ()"
    by code_simp
  show ?thesis
    using initialize_failure_recorded [OF ni, of ?t refused] step again by blast
qed

text \<open>
  C9. \<open>_init_methods\<close> clears the catalog before it asks for the listing: when the
  listing fails, the catalog is empty afterwards, whatever it held before, and after
  \<open>_initialize\<close> the client is not initialised, with the failure recorded; a catalog
  that held descriptors has changed.
\<close>

theorem listing_failure_empties_catalog:
  "(list_methods t = Inl e \<longrightarrow>
      fst (init_methods t s) = Inl e \<and> methods (snd (init_methods t s)) = []) \<and>
   (\<not> initialized s \<and> server_proxy t (address s) = None \<and> list_methods t = Inl e \<longrightarrow>
      fst (initialize t s) = Inl e \<and>
      methods (snd (initialize t s)) = [] \<and>
      \<not> initialized (snd (initialize t s)) \<and>
      fail_exc (snd (initialize t s)) = Some e \<and>
      (methods s \<noteq> [] \<longrightarrow> methods (snd (initialize t s)) \<noteq> methods s))"
  by (auto simp: initialize_listing_fails init_methods_def emit_def)

theorem listing_failure_empties_catalog_witness:
  "methods (snd (initialize (example_transport
                   (Inr (PyList [PyStr ''CCU.getSerial'', PyInt 1])) (Inr PyNone))
                 example_client)) \<noteq> [] \<and>
   methods (snd (initialize (example_transport (Inl refused) (Inr PyNone))
             (snd (initialize (example_transport
                   (Inr (PyList [PyStr ''CCU.getSerial'', PyInt 1])) (Inr PyNone))
                 example_client)))) = [] \<and>
   \<not> initialized (snd (initialize (example_transport (Inl refused) (Inr PyNone))
             (snd (initialize (example_transport
                   (Inr (PyList [PyStr ''CCU.getSerial'', PyInt 1])) (Inr PyNone))
                 example_client))))"
proof -
  let ?s = "snd (initialize (example_transport
                   (Inr (PyList [PyStr ''CCU.getSerial'', PyInt 1])) (Inr PyNone))
                 example_client)"
  let ?t = "example_transport (Inl refused) (Inr PyNone)"
  have ne: "methods ?s \<noteq> []"
    by code_simp
  have ni: "\<not> initialized ?s"
    by code_simp
  have hyp: "\<not> initialized ?s \<and> server_proxy ?t (address ?s) = None \<and>
             list_methods ?t = Inl refused"
    using ni by (simp add: example_transport_def)
  show ?thesis
    using listing_failure_empties_catalog [of ?t refused ?s] hyp ne by blast
qed

section \<open>Dynamic dispatch\<close>

lemma do_call_lookup:
  "map_of (methods s) name = Some m \<Longrightarrow> get_method s name = Inr m"
  by (simp add: get_method_def)

lemma api_call_unfold:
  "api_call t s name args =
     (case initialize t s of
        (Inl e, s1) \<Rightarrow> (Inl e, s1)
      | (Inr u, s1) \<Rightarrow> do_call t s1 name args)"
  by (simp add: api_call_def getattr_def call_def split: prod.splits sum.splits)

lemma do_call_events: "\<exists>rest. events (snd (do_call t s name args)) = events s @ rest"
  by (auto simp: do_call_def get_method_def emit_def Let_def
        split: option.splits sum.splits exn.splits)

lemma ready_client_entry:
  "map_of (methods ready_client) ''ccu_get_serial'' = Some (new_descriptor ''CCU.getSerial'')"
  by code_simp

lemma ready_client_address: "address ready_client = ''http://192.168.1.26:2001''"
  by (simp add: ready_client_def initialize_address example_client_def)

text \<open>
  C5, as the specification states it: a connection-level fault of the transport during
  the call is raised as the client's connection error. The call below refutes it: the
  remote call ends in \<open>socket.timeout\<close>, a fault of the connection, and the caller
  receives that exception, not a \<open>PMConnectionError\<close>.
\<close>

theorem do_call_connection_fault_unmapped:
  "fst (do_call (example_transport example_listing
                   (Inl (OtherError ''socket.timeout'' ''timed out'')))
          ready_client ''ccu_get_serial'' [])
     = Inl (OtherError ''socket.timeout'' ''timed out'') \<and>
   \<not> is_connection_error (OtherError ''socket.timeout'' ''timed out'')"
  by code_simp

text \<open>
  C5, amended: in a call of a method of the catalog, a \<open>ProtocolError\<close> of the transport
  is raised as \<open>PMConnectionError\<close> with a message that quotes the address of the
  client, and a \<open>Fault\<close> of the remote endpoint is raised as \<open>PMException\<close> with a
  message that quotes the requested local identifier; an exception of any other class
  that the transport raises, a fault of the connection included, reaches the caller
  as it was raised.
\<close>

theorem do_call_error_mapping:
  assumes "map_of (methods s) name = Some m"
  shows "(invoke t (NAME m) args = Inl (ProtocolError perr) \<longrightarrow>
            fst (do_call t s name args)
              = Inl (PMConnectionError
                       (''Unable to open '' @ dquote @ address s @ dquote @ '': '' @ perr))) \<and>
         (invoke t (NAME m) args = Inl (Fault fault) \<longrightarrow>
            fst (do_call t s name args)
              = Inl (PMException
                       (''Server error calling '' @ dquote @ name @ dquote @ '': '' @ fault))) \<and>
         (invoke t (NAME m) args = Inl e \<and>
          (\<forall>y. e \<noteq> ProtocolError y) \<and> (\<forall>y. e \<noteq> Fault y) \<longrightarrow>
            fst (do_call t s name args) = Inl e)"
proof (intro conjI impI)
  assume "invoke t (NAME m) args = Inl (ProtocolError perr)"
  then show "fst (do_call t s name args)
      = Inl (PMConnectionError
               (''Unable to open '' @ dquote @ address s @ dquote @ '': '' @ perr))"
    using assms by (simp add: do_call_def get_method_def)
next
  assume "invoke t (NAME m) args = Inl (Fault fault)"
  then show "fst (do_call t s name args)
      = Inl (PMException
               (''Server error calling '' @ dquote @ name @ dquote @ '': '' @ fault))"
    using assms by (simp add: do_call_def get_method_def)
next
  assume "invoke t (NAME m) args = Inl e \<and>
          (\<forall>y. e \<noteq> ProtocolError y) \<and> (\<forall>y. e \<noteq> Fault y)"
  then show "fst (do_call t s name args) = Inl e"
    using assms by (cases e) (simp_all add: do_call_def get_method_def)
qed

theorem do_call_error_mapping_witness:
  "fst (do_call (example_transport example_listing (Inl (ProtocolError ''503 Service Unavailable'')))
          ready_client ''ccu_get_serial'' [])
     = Inl (PMConnectionError
              (''Unable to open '' @ dquote @ ''http://192.168.1.26:2001'' @ dquote
               @ '': 503 Service Unavailable'')) \<and>
   fst (do_call (example_transport example_listing (Inl (Fault ''Fault -1: Failure'')))
          ready_client ''ccu_get_serial'' [])
     = Inl (PMException
              (''Server error calling '' @ dquote @ ''ccu_get_serial'' @ dquote
               @ '': Fault -1: Failure'')) \<and>
   fst (do_call (example_transport example_listing (Inl (TypeError ''not marshallable'')))
          ready_client ''ccu_get_serial'' [])
     = Inl (TypeError ''not marshallable'')"
  using do_call_error_mapping [OF ready_client_entry,
          of "example_transport example_listing (Inl (ProtocolError ''503 Service Unavailable''))"
             "[]" "''503 Service Unavailable''" "''x''" "TypeError ''x''"]
        do_call_error_mapping [OF ready_client_entry,
          of "example_transport example_listing (Inl (Fault ''Fault -1: Failure''))"
             "[]" "''x''" "''Fault -1: Failure''" "TypeError ''x''"]
        do_call_error_mapping [OF ready_client_entry,
          of "example_transport example_listing (Inl (TypeError ''not marshallable''))"
             "[]" "''x''" "''x''" "TypeError ''not marshallable''"]
  by (simp add: example_transport_def ready_client_address)

text \<open>
  C6, as the specification states it: every failure of a call reaches the caller as one
  of the client's own exceptions. The call below refutes it: the listing succeeds, the
  remote call raises \<open>socket.error\<close>, and \<open>_do_call\<close>, which catches \<open>ProtocolError\<close> and
  \<open>Fault\<close> only, lets it through.
\<close>

theorem do_call_passes_other_exceptions:
  "fst (api_call (example_transport example_listing
                    (Inl (OtherError ''socket.error'' ''Connection refused'')))
          example_client ''ccu_get_serial'' [])
     = Inl (OtherError ''socket.error'' ''Connection refused'') \<and>
   \<not> is_pm_error (OtherError ''socket.error'' ''Connection refused'')"
  by code_simp

text \<open>
  C6, amended: a call fails with one of the client's own exceptions (\<open>PMException\<close>,
  \<open>PMConnectionError\<close>) when the method is not in the catalog, when the transport raises
  \<open>ProtocolError\<close> and when the remote endpoint answers with a \<open>Fault\<close>; an exception of
  any other class that the transport raises leaves \<open>_do_call\<close> unchanged; and no other
  exception leaves \<open>_do_call\<close>.
\<close>

theorem do_call_errors:
  "(map_of (methods s) name = None \<longrightarrow>
      (\<exists>e'. fst (do_call t s name args) = Inl e' \<and> is_pm_error e')) \<and>
   (map_of (methods s) name = Some m \<and> invoke t (NAME m) args = Inl (ProtocolError x) \<longrightarrow>
      (\<exists>e'. fst (do_call t s name args) = Inl e' \<and> is_pm_error e')) \<and>
   (map_of (methods s) name = Some m \<and> invoke t (NAME m) args = Inl (Fault x) \<longrightarrow>
      (\<exists>e'. fst (do_call t s name args) = Inl e' \<and> is_pm_error e')) \<and>
   (map_of (methods s) name = Some m \<and> invoke t (NAME m) args = Inl e \<and>
    (\<forall>y. e \<noteq> ProtocolError y) \<and> (\<forall>y. e \<noteq> Fault y) \<longrightarrow>
      fst (do_call t s name args) = Inl e) \<and>
   (fst (do_call t s name args) = Inl e \<longrightarrow>
      is_pm_error e \<or>
      (\<exists>m'. map_of (methods s) name = Some m' \<and> invoke t (NAME m') args = Inl e \<and>
            (\<forall>y. e \<noteq> ProtocolError y) \<and> (\<forall>y. e \<noteq> Fault y)))"
proof (intro conjI impI)
  assume "map_of (methods s) name = None"
  then show "\<exists>e'. fst (do_call t s name args) = Inl e' \<and> is_pm_error e'"
    by (simp add: do_call_def get_method_def)
next
  assume "map_of (methods s) name = Some m \<and> invoke t (NAME m) args = Inl (ProtocolError x)"
  then show "\<exists>e'. fst (do_call t s name args) = Inl e' \<and> is_pm_error e'"
    by (simp add: do_call_def get_method_def)
next
  assume "map_of (methods s) name = Some m \<and> invoke t (NAME m) args = Inl (Fault x)"
  then show "\<exists>e'. fst (do_call t s name args) = Inl e' \<and> is_pm_error e'"
    by (simp add: do_call_def get_method_def)
next
  assume "map_of (methods s) name = Some m \<and> invoke t (NAME m) args = Inl e \<and>
    (\<forall>y. e \<noteq> ProtocolError y) \<and> (\<forall>y. e \<noteq> Fault y)"
  then show "fst (do_call t s name args) = Inl e"
    by (cases e) (simp_all add: do_call_def get_method_def)
next
  assume "fst (do_call t s name args) = Inl e"
  then show "is_pm_error e \<or>
      (\<exists>m'. map_of (methods s) name = Some m' \<and> invoke t (NAME m') args = Inl e \<and>
            (\<forall>y. e \<noteq> ProtocolError y) \<and> (\<forall>y. e \<noteq> Fault y))"
    by (auto simp: do_call_def get_method_def Let_def
          split: option.splits sum.splits exn.splits)
qed

theorem do_call_errors_witness:
  "map_of (methods ready_client) ''ccu_get_serial'' = Some (new_descriptor ''CCU.getSerial'') \<and>
   invoke (example_transport example_listing (Inl refused))
     (NAME (new_descriptor ''CCU.getSerial'')) [] = Inl refused \<and>
   (\<forall>y. refused \<noteq> ProtocolError y) \<and> (\<forall>y. refused \<noteq> Fault y) \<and>
   fst (do_call (example_transport example_listing (Inl refused))
          ready_client ''ccu_get_serial'' []) = Inl refused \<and>
   \<not> is_pm_error refused"
proof -
  let ?t = "example_transport example_listing (Inl refused)"
  have inv: "invoke ?t (NAME (new_descriptor ''CCU.getSerial'')) [] = Inl refused"
    by (simp add: example_transport_def)
  have cls: "(\<forall>y. refused \<noteq> ProtocolError y) \<and> (\<forall>y. refused \<noteq> Fault y)"
    by (simp add: refused_def)
  have npm: "\<not> is_pm_error refused"
    by (simp add: refused_def)
  have "fst (do_call ?t ready_client ''ccu_get_serial'' []) = Inl refused"
    using do_call_errors [of ready_client "''ccu_get_serial''" ?t "[]"
            "new_descriptor ''CCU.getSerial''" "''x''" refused]
          ready_client_entry inv cls by blast
  then show ?thesis
    using ready_client_entry inv cls npm by blast
qed

text \<open>
  C8. The expression \<open>API.name(*args)\<close> initialises first: on a client that is not
  initialised it logs and connects whatever the name is; when the initialisation fails,
  its exception is raised and the catalog is not consulted; when it has succeeded and
  the name is not in the catalog, the call raises \<open>PMException\<close> with a message that
  quotes the name.
\<close>

theorem unknown_method_after_initialization:
  "(\<not> initialized s \<longrightarrow>
      (\<exists>rest. events (snd (api_call t s name args))
                 = events s @ Log_Initializing # Connect (address s) # rest)) \<and>
   (fst (initialize t s) = Inl e \<longrightarrow> api_call t s name args = (Inl e, snd (initialize t s))) \<and>
   (fst (initialize t s) = Inr () \<and> map_of (methods (snd (initialize t s))) name = None \<longrightarrow>
      api_call t s name args =
        (Inl (PMException (''Method '' @ dquote @ name @ dquote @ '' is not a valid method.'')),
         snd (initialize t s)))"
proof (intro conjI impI)
  assume ni: "\<not> initialized s"
  obtain r s1 where r: "initialize t s = (r, s1)" by (cases "initialize t s")
  obtain rest where e1: "events s1 = events s @ Log_Initializing # Connect (address s) # rest"
    using initialize_events [OF ni, of t] r by auto
  obtain rest' where "events (snd (do_call t s1 name args)) = events s1 @ rest'"
    using do_call_events by blast
  then show "\<exists>rest. events (snd (api_call t s name args))
                 = events s @ Log_Initializing # Connect (address s) # rest"
    using r e1 by (cases r) (simp_all add: api_call_unfold)
next
  assume "fst (initialize t s) = Inl e"
  then show "api_call t s name args = (Inl e, snd (initialize t s))"
    by (cases "initialize t s") (simp add: api_call_unfold)
next
  assume "fst (initialize t s) = Inr () \<and> map_of (methods (snd (initialize t s))) name = None"
  then show "api_call t s name args =
        (Inl (PMException (''Method '' @ dquote @ name @ dquote @ '' is not a valid method.'')),
         snd (initialize t s))"
    by (cases "initialize t s") (simp add: api_call_unfold do_call_def get_method_def)
qed

theorem unknown_method_after_initialization_witness:
  "(\<exists>rest. events (snd (api_call (example_transport example_listing (Inr PyNone))
                          example_client ''ccu_get_seril'' []))
             = events example_client
               @ Log_Initializing # Connect (address example_client) # rest) \<and>
   api_call (example_transport example_listing (Inr PyNone)) example_client ''ccu_get_seril'' []
     = (Inl (PMException
               (''Method '' @ dquote @ ''ccu_get_seril'' @ dquote @ '' is not a valid method.'')),
        snd (initialize (example_transport example_listing (Inr PyNone)) example_client)) \<and>
   api_call (example_transport (Inl refused) (Inr PyNone)) example_client ''ccu_get_seril'' []
     = (Inl refused,
        snd (initialize (example_transport (Inl refused) (Inr PyNone)) example_client))"
proof -
  have ni: "\<not> initialized example_client"
    by (simp add: example_client_def)
  have ok: "fst (initialize (example_transport example_listing (Inr PyNone)) example_client)
              = Inr () \<and>
            map_of (methods (snd (initialize (example_transport example_listing (Inr PyNone))
                                    example_client))) ''ccu_get_seril'' = None"
    by code_simp
  have bad: "fst (initialize (example_transport (Inl refused) (Inr PyNone)) example_client)
               = Inl refused"
    by code_simp
  show ?thesis
    using unknown_method_after_initialization
            [of example_client "example_transport example_listing (Inr PyNone)"
                "''ccu_get_seril''" "[]" refused]
          unknown_method_after_initialization
            [of example_client "example_transport (Inl refused) (Inr PyNone)"
                "''ccu_get_seril''" "[]" refused]
          ni ok bad
    by blast
qed

section \<open>The descriptors of the catalog\<close>

text \<open>
  Every entry that \<open>_init_methods\<close> makes is the descriptor built from a listed name
  under the translation of that name; no other code writes to the catalog.
\<close>

lemma loop_bare:
  "\<forall>(k, d)\<in>set (methods s). d = new_descriptor (NAME d) \<and> k = to_internal_name (NAME d) \<Longrightarrow>
   \<forall>(k, d)\<in>set (methods (snd (init_methods_loop ms s))).
      d = new_descriptor (NAME d) \<and> k = to_internal_name (NAME d)"
proof (induction ms arbitrary: s)
  case Nil
  then show ?case by simp
next
  case (Cons m ms)
  show ?case
  proof (cases m)
    case (PyStr mname)
    have "\<forall>(k, d)\<in>set (setdefault (to_internal_name mname) (new_descriptor mname) (methods s)).
            d = new_descriptor (NAME d) \<and> k = to_internal_name (NAME d)"
      using Cons.prems by (auto simp: setdefault_def new_descriptor_def)
    then show ?thesis
      using PyStr Cons.IH [of "s\<lparr>methods := setdefault (to_internal_name mname)
                                   (new_descriptor mname) (methods s)\<rparr>"]
      by simp
  qed (use Cons.prems in simp_all)
qed

lemma init_methods_bare:
  "\<forall>(k, d)\<in>set (methods (snd (init_methods t s))).
      d = new_descriptor (NAME d) \<and> k = to_internal_name (NAME d)"
proof -
  have "\<forall>(k, d)\<in>set (methods (snd (init_methods_loop ms (emit ListMethods (s\<lparr>methods := []\<rparr>))))).
      d = new_descriptor (NAME d) \<and> k = to_internal_name (NAME d)" for ms
    by (rule loop_bare) (simp add: emit_def)
  then show ?thesis
    by (auto simp: init_methods_def Let_def emit_def split: sum.splits pyval.splits)
qed

lemma initialize_bare:
  assumes "\<forall>(k, d)\<in>set (methods s). d = new_descriptor (NAME d) \<and> k = to_internal_name (NAME d)"
  shows "\<forall>(k, d)\<in>set (methods (snd (initialize t s))).
           d = new_descriptor (NAME d) \<and> k = to_internal_name (NAME d)"
proof (cases "initialized s")
  case True
  then show ?thesis using assms by (simp add: initialize_ready)
next
  case False
  show ?thesis
  proof (cases "server_proxy t (address s)")
    case (Some e)
    then show ?thesis using False assms by (simp add: initialize_connect_fails)
  next
    case None
    let ?s1 = "s\<lparr>fail_exc := None,
              events := events s @ [Log_Initializing, Connect (address s)],
              proxy := Some (address s)\<rparr>"
    obtain r s2 where r: "init_methods t ?s1 = (r, s2)" by (cases "init_methods t ?s1")
    have "\<forall>(k, d)\<in>set (methods s2). d = new_descriptor (NAME d) \<and> k = to_internal_name (NAME d)"
      using init_methods_bare [of t ?s1] r by simp
    then show ?thesis
      using False None r by (cases r) (simp_all add: initialize_connected emit_def)
  qed
qed

lemma do_call_methods: "methods (snd (do_call t s name args)) = methods s"
  by (auto simp: do_call_def get_method_def emit_def Let_def
        split: option.splits sum.splits exn.splits)

lemma reachable_bare:
  "reachable s \<Longrightarrow>
   \<forall>(k, d)\<in>set (methods s). d = new_descriptor (NAME d) \<and> k = to_internal_name (NAME d)"
proof (induction rule: reachable.induct)
  case (reachable_new addr s)
  then show ?case
    by (auto simp: XMLAPI_new_def split: sum.splits)
next
  case (reachable_call s t name args)
  obtain r s1 where r: "initialize t s = (r, s1)" by (cases "initialize t s")
  have "\<forall>(k, d)\<in>set (methods s1). d = new_descriptor (NAME d) \<and> k = to_internal_name (NAME d)"
    using initialize_bare [OF reachable_call.IH, of t] r by simp
  then show ?case
    using r by (cases r) (simp_all add: api_call_unfold do_call_methods)
next
  case (reachable_print s t)
  obtain r s1 where r: "initialize t s = (r, s1)" by (cases "initialize t s")
  have "\<forall>(k, d)\<in>set (methods s1). d = new_descriptor (NAME d) \<and> k = to_internal_name (NAME d)"
    using initialize_bare [OF reachable_print.IH, of t] r by simp
  then show ?case
    using r by (cases r) (simp_all add: xmlapi_print_methods_def)
qed

lemma method_line_bare:
  "d = new_descriptor (NAME d) \<Longrightarrow>
   method_line (k, d) = line_format (''API.'' @ k @ ''()'') []"
proof -
  assume "d = new_descriptor (NAME d)"
  then have "INT_ARGUMENTS d = [] \<and> INFO d = []"
    by (metis new_descriptor_def descriptor.select_convs(2,4))
  then show ?thesis by (simp add: method_line_def)
qed

lemma example_client_reachable: "reachable example_client"
  by (rule reachable_new [of "PyStr ''192.168.1.26''"])
     (simp add: XMLAPI_new_def set_address_def example_client_def)

text \<open>
  C10. In every state a client can reach, each descriptor of the catalog has an empty
  description and empty lists of declared and internal arguments, and carries the raw
  remote name, whose translation is its key. Hence the listing of \<open>print_methods\<close>
  consists of the header and, for every local identifier in sorted order, a line with
  \<open>API.name()\<close> and an empty description.
\<close>

theorem catalog_descriptors_bare:
  assumes "reachable s"
  shows "(\<forall>(k, d)\<in>set (methods s).
            INFO d = [] \<and> ARGUMENTS d = [] \<and> INT_ARGUMENTS d = [] \<and>
            k = to_internal_name (NAME d)) \<and>
         (\<forall>t out. fst (xmlapi_print_methods t s) = Inr out \<longrightarrow>
            out = line_format ''Method'' ''Description''
                  # map (\<lambda>item. line_format (''API.'' @ fst item @ ''()'') [])
                      (sort_key fst (methods (snd (xmlapi_print_methods t s)))))"
proof (intro conjI allI impI)
  have inv: "\<forall>(k, d)\<in>set (methods s). d = new_descriptor (NAME d) \<and> k = to_internal_name (NAME d)"
    by (rule reachable_bare [OF assms])
  show "\<forall>(k, d)\<in>set (methods s).
            INFO d = [] \<and> ARGUMENTS d = [] \<and> INT_ARGUMENTS d = [] \<and>
            k = to_internal_name (NAME d)"
  proof (clarify)
    fix k d assume "(k, d) \<in> set (methods s)"
    with inv have d: "d = new_descriptor (NAME d)" and k: "k = to_internal_name (NAME d)" by auto
    from d have "INFO d = [] \<and> ARGUMENTS d = [] \<and> INT_ARGUMENTS d = []"
      by (metis new_descriptor_def descriptor.select_convs(2,3,4))
    with k show "INFO d = [] \<and> ARGUMENTS d = [] \<and> INT_ARGUMENTS d = [] \<and>
            k = to_internal_name (NAME d)" by simp
  qed
  fix t out
  assume out: "fst (xmlapi_print_methods t s) = Inr out"
  obtain r s1 where r: "initialize t s = (r, s1)" by (cases "initialize t s")
  have inv1: "\<forall>(k, d)\<in>set (methods s1). d = new_descriptor (NAME d) \<and> k = to_internal_name (NAME d)"
    using initialize_bare [OF inv, of t] r by simp
  have lines: "map method_line (sort_key fst (methods s1))
        = map (\<lambda>item. line_format (''API.'' @ fst item @ ''()'') []) (sort_key fst (methods s1))"
  proof (rule map_cong [OF refl])
    fix item assume "item \<in> set (sort_key fst (methods s1))"
    then have "item \<in> set (methods s1)" by simp
    with inv1 have "snd item = new_descriptor (NAME (snd item))" by (cases item) auto
    then show "method_line item = line_format (''API.'' @ fst item @ ''()'') []"
      using method_line_bare [of "snd item" "fst item"] by simp
  qed
  show "out = line_format ''Method'' ''Description''
                  # map (\<lambda>item. line_format (''API.'' @ fst item @ ''()'') [])
                      (sort_key fst (methods (snd (xmlapi_print_methods t s))))"
    using out r lines by (cases r) (simp_all add: xmlapi_print_methods_def)
qed

theorem catalog_descriptors_bare_witness:
  "reachable (snd (api_call (example_transport example_listing (Inr PyNone))
                     example_client ''ccu_get_serial'' [])) \<and>
   map fst (methods (snd (api_call (example_transport example_listing (Inr PyNone))
                     example_client ''ccu_get_serial'' []))) = [''ccu_get_serial'', ''foo_bar''] \<and>
   list_all (\<lambda>(k, d). INFO d = [] \<and> ARGUMENTS d = [] \<and> INT_ARGUMENTS d = [])
     (methods (snd (api_call (example_transport example_listing (Inr PyNone))
                     example_client ''ccu_get_serial'' []))) \<and>
   fst (xmlapi_print_methods (example_transport example_listing (Inr PyNone))
          (snd (api_call (example_transport example_listing (Inr PyNone))
                     example_client ''ccu_get_serial'' [])))
     = Inr [line_format ''Method'' ''Description'',
            line_format ''API.ccu_get_serial()'' [],
            line_format ''API.foo_bar()'' []]"
proof -
  let ?t = "example_transport example_listing (Inr PyNone)"
  let ?s = "snd (api_call ?t example_client ''ccu_get_serial'' [])"
  have re: "reachable ?s"
    by (rule reachable_call [OF example_client_reachable])
  have keys: "map fst (methods ?s) = [''ccu_get_serial'', ''foo_bar'']"
    by code_simp
  have out: "fst (xmlapi_print_methods ?t ?s)
     = Inr [line_format ''Method'' ''Description'',
            line_format ''API.ccu_get_serial()'' [],
            line_format ''API.foo_bar()'' []]"
    by code_simp
  have bare: "list_all (\<lambda>(k, d). INFO d = [] \<and> ARGUMENTS d = [] \<and> INT_ARGUMENTS d = [])
                (methods ?s)"
    using conjunct1 [OF catalog_descriptors_bare [OF re]] unfolding list_all_iff by blast
  show ?thesis
    by (intro conjI re keys bare out)
qed

end
